theory Spec2Isabelle
  imports Main "HOL-Library.Option_ord" "HOL-Library.Multiset"
begin

section \<open>Data model\<close>

text \<open>
  The two mapped classes of \<^verbatim>\<open>main.py\<close>. Both classes have columns called
  \<^verbatim>\<open>id\<close> and \<^verbatim>\<open>name\<close>; the fields are prefixed to keep them apart.
  Primary keys are the non-negative integers the \<^verbatim>\<open><int:task_id>\<close> converter accepts.
  \<^verbatim>\<open>owner_id\<close> is a nullable column. The declared lengths of the string columns are
  not enforced by the default SQLite store and are left out.
\<close>

record User =
  user_id :: nat
  email :: string
  password :: string
  user_name :: string

record Task =
  owner_id :: "nat option"
  task_id :: nat
  task_name :: string
  category :: string

text \<open>
  The state a request handler can read or change: the two tables, each as the list of
  its rows in insertion order, and the identifier Flask-Login keeps in the session.
\<close>

record app_state =
  users :: "User list"
  tasks :: "Task list"
  session_user_id :: "nat option"

text \<open>The exceptions a handler lets escape (each ends the request as a fault).\<close>

datatype error =
    BadRequestKeyError
  | AttributeError
  | IntegrityError
  | UnmappedInstanceError

datatype http_method = GET | HEAD | POST

record request =
  req_method :: http_method
  form :: "string \<rightharpoonup> string"

datatype response =
    Redirect string
  | Render string "Task list option"
  | Fault error

record reply =
  state_after :: app_state
  flashed :: "(string \<times> string) list"
  resp :: response

definition redirect :: "app_state \<Rightarrow> string \<Rightarrow> reply" where
  "redirect s endpoint = \<lparr>state_after = s, flashed = [], resp = Redirect endpoint\<rparr>"

definition render_template :: "app_state \<Rightarrow> string \<Rightarrow> reply" where
  "render_template s page = \<lparr>state_after = s, flashed = [], resp = Render page None\<rparr>"

text \<open>An uncaught exception: nothing is committed, the request ends in a fault.\<close>

definition fault :: "app_state \<Rightarrow> error \<Rightarrow> reply" where
  "fault s e = \<lparr>state_after = s, flashed = [], resp = Fault e\<rparr>"

definition flash_then :: "string \<Rightarrow> string \<Rightarrow> reply \<Rightarrow> reply" where
  "flash_then msg cat r = r\<lparr>flashed := (msg, cat) # flashed r\<rparr>"

section \<open>Queries and inserts\<close>

text \<open>\<^verbatim>\<open>User.query.filter_by(email=e).first()\<close>\<close>

definition user_by_email :: "User list \<Rightarrow> string \<Rightarrow> User option" where
  "user_by_email us e = find (\<lambda>u. email u = e) us"

text \<open>\<^verbatim>\<open>User.query.get(int(user_id))\<close>\<close>

definition load_user :: "User list \<Rightarrow> nat \<Rightarrow> User option" where
  "load_user us i = find (\<lambda>u. user_id u = i) us"

text \<open>\<^verbatim>\<open>Task.query.get(task_id)\<close> and \<^verbatim>\<open>Task.query.filter_by(id=task_id).first()\<close>\<close>

definition task_get :: "Task list \<Rightarrow> nat \<Rightarrow> Task option" where
  "task_get ts i = find (\<lambda>t. task_id t = i) ts"

text \<open>
  Flask-Login's \<^verbatim>\<open>current_user\<close>: the user loaded from the session's identifier, the
  anonymous user (here \<open>None\<close>) when there is none or the loader finds no row.
\<close>

definition current_user :: "app_state \<Rightarrow> User option" where
  "current_user s =
     (case session_user_id s of
        None \<Rightarrow> None
      | Some i \<Rightarrow> load_user (users s) i)"

text \<open>
  An integer primary key left out of an insert is given the largest key of the table
  plus one (1 in an empty table).
\<close>

definition next_id :: "nat list \<Rightarrow> nat" where
  "next_id ids = Suc (foldr max ids 0)"

text \<open>
  \<^verbatim>\<open>db.session.add(...); db.session.commit()\<close> for each table. The unique columns
  (\<^verbatim>\<open>Users.email\<close>, \<^verbatim>\<open>Tasks.name\<close>) make the commit raise when the value is taken.
  A new task gets the column default \<^verbatim>\<open>"To Do"\<close>.
\<close>

definition insert_user :: "User list \<Rightarrow> string \<Rightarrow> string \<Rightarrow> string \<Rightarrow> error + (User list \<times> User)" where
  "insert_user us e pw n =
     (if e \<in> set (map email us) then Inl IntegrityError
      else let u = \<lparr>user_id = next_id (map user_id us), email = e, password = pw, user_name = n\<rparr>
           in Inr (us @ [u], u))"

definition insert_task :: "Task list \<Rightarrow> string \<Rightarrow> nat option \<Rightarrow> error + Task list" where
  "insert_task ts n own =
     (if n \<in> set (map task_name ts) then Inl IntegrityError
      else Inr (ts @ [\<lparr>owner_id = own, task_id = next_id (map task_id ts),
                        task_name = n, category = ''To Do''\<rparr>]))"

text \<open>\<^verbatim>\<open>UPDATE Tasks SET category = c WHERE id = i\<close>\<close>

definition set_category :: "Task list \<Rightarrow> nat \<Rightarrow> string \<Rightarrow> Task list" where
  "set_category ts i c = map (\<lambda>t. if task_id t = i then t\<lparr>category := c\<rparr> else t) ts"

text \<open>\<^verbatim>\<open>DELETE FROM Tasks WHERE id = i\<close>\<close>

definition delete_row :: "Task list \<Rightarrow> nat \<Rightarrow> Task list" where
  "delete_row ts i = filter (\<lambda>t. task_id t \<noteq> i) ts"

text \<open>
  \<^verbatim>\<open>Task.query.order_by(Task.owner_id).all()\<close> is answered by the store; \<open>home\<close>
  takes the store's answer as a parameter \<open>ob\<close>, from the rows of the table to the rows
  returned. The default SQLite store reads the table in key order, which is the order of
  insertion, sorts on the owner column with \<open>NULL\<close> owners first, and keeps rows with
  equal owners in the order it read them.
\<close>

definition order_by_owner_id :: "Task list \<Rightarrow> Task list" where
  "order_by_owner_id ts = sort_key owner_id ts"

section \<open>Request handlers\<close>

definition home :: "(Task list \<Rightarrow> Task list) \<Rightarrow> app_state \<Rightarrow> reply" where
  "home ob s =
     \<lparr>state_after = s, flashed = [],
      resp = Render ''index.html'' (Some (ob (tasks s)))\<rparr>"

definition add_task :: "request \<Rightarrow> app_state \<Rightarrow> reply" where
  "add_task req s =
     (if req_method req = POST then
        (case form req ''task'' of
           None \<Rightarrow> fault s BadRequestKeyError
         | Some nm \<Rightarrow>
             (case current_user s of
                None \<Rightarrow> fault s AttributeError
              | Some u \<Rightarrow>
                  (case insert_task (tasks s) nm (Some (user_id u)) of
                     Inl e \<Rightarrow> fault s e
                   | Inr ts \<Rightarrow> redirect (s\<lparr>tasks := ts\<rparr>) ''home'')))
      else redirect s ''home'')"

definition update_task :: "nat \<Rightarrow> app_state \<Rightarrow> reply" where
  "update_task i s =
     (case task_get (tasks s) i of
        None \<Rightarrow> fault s AttributeError
      | Some t \<Rightarrow>
          (if category t = ''To Do''
           then redirect (s\<lparr>tasks := set_category (tasks s) (task_id t) ''DOING''\<rparr>) ''home''
           else redirect (s\<lparr>tasks := set_category (tasks s) (task_id t) ''DONE''\<rparr>) ''home''))"

definition delete_task :: "nat \<Rightarrow> app_state \<Rightarrow> reply" where
  "delete_task i s =
     (case task_get (tasks s) i of
        None \<Rightarrow> fault s UnmappedInstanceError
      | Some t \<Rightarrow> redirect (s\<lparr>tasks := delete_row (tasks s) (task_id t)\<rparr>) ''home'')"

text \<open>
  \<^verbatim>\<open>generate_password_hash\<close> and \<^verbatim>\<open>check_password_hash\<close> belong to Werkzeug; the
  handlers take them as parameters \<open>gen\<close> (from the fresh salt and the password to the
  stored string) and \<open>chk\<close> (stored string, then the password entered).
\<close>

definition already_signed_up :: string where
  "already_signed_up =
     ''You'' @ [CHR 0x27] @ ''ve already signed up with that email, log in instead!''"

definition register :: "(string \<Rightarrow> string \<Rightarrow> string) \<Rightarrow> string \<Rightarrow> request \<Rightarrow> app_state \<Rightarrow> reply" where
  "register gen salt req s =
     (if req_method req = POST then
        (case form req ''register-email'' of
           None \<Rightarrow> fault s BadRequestKeyError
         | Some e \<Rightarrow>
             (case user_by_email (users s) e of
                Some _ \<Rightarrow>
                  flash_then already_signed_up ''error'' (render_template s ''register.html'')
              | None \<Rightarrow>
                  (case form req ''register-password'' of
                     None \<Rightarrow> fault s BadRequestKeyError
                   | Some pw \<Rightarrow>
                       (case form req ''register-name'' of
                          None \<Rightarrow> fault s BadRequestKeyError
                        | Some n \<Rightarrow>
                            (case insert_user (users s) e (gen salt pw) n of
                               Inl err \<Rightarrow> fault s err
                             | Inr (us, new_user) \<Rightarrow>
                                 redirect (s\<lparr>users := us,
                                              session_user_id := Some (user_id new_user)\<rparr>)
                                   ''home'')))))
      else render_template s ''register.html'')"

definition login :: "(string \<Rightarrow> string \<Rightarrow> bool) \<Rightarrow> request \<Rightarrow> app_state \<Rightarrow> reply" where
  "login chk req s =
     (if req_method req = POST then
        (case form req ''login-email'' of
           None \<Rightarrow> fault s BadRequestKeyError
         | Some e \<Rightarrow>
             (case form req ''login-password'' of
                None \<Rightarrow> fault s BadRequestKeyError
              | Some pw \<Rightarrow>
                  (case user_by_email (users s) e of
                     None \<Rightarrow>
                       flash_then ''That email does not exist, please try again.'' ''error''
                         (redirect s ''login'')
                   | Some u \<Rightarrow>
                       if \<not> chk (password u) pw
                       then flash_then ''Password incorrect, please try again!'' ''error''
                              (redirect s ''login'')
                       else redirect (s\<lparr>session_user_id := Some (user_id u)\<rparr>) ''home'')))
      else render_template s ''login.html'')"

definition logout :: "app_state \<Rightarrow> reply" where
  "logout s = redirect (s\<lparr>session_user_id := None\<rparr>) ''home''"

section \<open>Sequences of requests\<close>

datatype call =
    Home
  | Add request
  | Update nat
  | Delete nat
  | Register string request
  | Login request
  | Logout

fun handle :: "(string \<Rightarrow> string \<Rightarrow> string) \<Rightarrow> (string \<Rightarrow> string \<Rightarrow> bool) \<Rightarrow> (Task list \<Rightarrow> Task list) \<Rightarrow>
    app_state \<Rightarrow> call \<Rightarrow> reply" where
  "handle gen chk ob s Home = home ob s"
| "handle gen chk ob s (Add req) = add_task req s"
| "handle gen chk ob s (Update i) = update_task i s"
| "handle gen chk ob s (Delete i) = delete_task i s"
| "handle gen chk ob s (Register salt req) = register gen salt req s"
| "handle gen chk ob s (Login req) = login chk req s"
| "handle gen chk ob s Logout = logout s"

fun run :: "(string \<Rightarrow> string \<Rightarrow> string) \<Rightarrow> (string \<Rightarrow> string \<Rightarrow> bool) \<Rightarrow> (Task list \<Rightarrow> Task list) \<Rightarrow>
    app_state \<Rightarrow> call list \<Rightarrow> app_state" where
  "run gen chk ob s [] = s"
| "run gen chk ob s (c # cs) = run gen chk ob (state_after (handle gen chk ob s c)) cs"


section \<open>Notions used in the statements\<close>

text \<open>One request to the update route, seen as a step on the state.\<close>

definition advance :: "nat \<Rightarrow> app_state \<Rightarrow> app_state" where
  "advance i s = state_after (update_task i s)"

text \<open>The category stored for the task with a given identifier, if there is one.\<close>

definition category_at :: "app_state \<Rightarrow> nat \<Rightarrow> string option" where
  "category_at s i = map_option category (task_get (tasks s) i)"

text \<open>
  What the table declarations promise and the handlers keep: unique emails and task
  names, unique keys, task keys growing with insertion, the three categories, and every
  owner a stored user. The empty store is the one \<^verbatim>\<open>db.create_all()\<close> leaves.
\<close>

definition db_ok :: "app_state \<Rightarrow> bool" where
  "db_ok s \<longleftrightarrow>
     distinct (map email (users s)) \<and>
     distinct (map user_id (users s)) \<and>
     distinct (map task_name (tasks s)) \<and>
     distinct (map task_id (tasks s)) \<and>
     sorted (map task_id (tasks s)) \<and>
     (\<forall>t \<in> set (tasks s). category t \<in> {''To Do'', ''DOING'', ''DONE''}) \<and>
     (\<forall>t \<in> set (tasks s). \<exists>u \<in> set (users s). owner_id t = Some (user_id u))"

definition initial_state :: app_state where
  "initial_state = \<lparr>users = [], tasks = [], session_user_id = None\<rparr>"

subsection \<open>A small store for the concrete instances\<close>

text \<open>
  Two users and one task. The stored passwords are written for the stand-in pair
  \<open>\<lambda>salt pw. salt @ pw\<close> and \<open>\<lambda>h pw. drop 8 h = pw\<close> (an eight-character salt in
  front of the password), which plays the part of Werkzeug's functions below.
\<close>

definition post :: "(string \<times> string) list \<Rightarrow> request" where
  "post kvs = \<lparr>req_method = POST, form = map_of kvs\<rparr>"

definition ann :: User where
  "ann = \<lparr>user_id = 1, email = ''ann@example.org'', password = ''saltsaltpw-ann'', user_name = ''Ann''\<rparr>"

definition bob :: User where
  "bob = \<lparr>user_id = 2, email = ''bob@example.org'', password = ''saltsaltpw-bob'', user_name = ''Bob''\<rparr>"

definition milk :: Task where
  "milk = \<lparr>owner_id = Some 1, task_id = 1, task_name = ''Buy milk'', category = ''To Do''\<rparr>"

definition eggs :: Task where
  "eggs = \<lparr>owner_id = Some 1, task_id = 2, task_name = ''Buy eggs'', category = ''To Do''\<rparr>"

definition example_state :: app_state where
  "example_state = \<lparr>users = [ann, bob], tasks = [milk], session_user_id = Some 1\<rparr>"

lemmas ex_defs = post_def ann_def bob_def milk_def eggs_def example_state_def

section \<open>Lookups\<close>

lemma task_get_id: "task_get ts i = Some t \<Longrightarrow> task_id t = i"
  by (auto simp: task_get_def find_Some_iff)

lemma task_get_set_category:
  "task_get (set_category ts i c) j =
     (if j = i then map_option (\<lambda>t. t\<lparr>category := c\<rparr>) (task_get ts i) else task_get ts j)"
  by (induction ts) (auto simp: task_get_def set_category_def)



lemma user_by_email_None: "user_by_email us e = None \<longleftrightarrow> e \<notin> set (map email us)"
  by (auto simp: user_by_email_def find_None_iff)

lemma user_by_email_distinct:
  "distinct (map email us) \<Longrightarrow> u \<in> set us \<Longrightarrow> user_by_email us (email u) = Some u"
  by (induction us) (auto simp: user_by_email_def)

lemma next_id_greater: "x \<in> set ids \<Longrightarrow> x < next_id ids"
  by (induction ids) (auto simp: next_id_def)

lemma find_snoc_fresh:
  "\<forall>x \<in> set xs. \<not> P x \<Longrightarrow> P y \<Longrightarrow> find P (xs @ [y]) = Some y"
  by (induction xs) auto

lemma count_distinct_key:
  "distinct (map f xs) \<Longrightarrow> k \<in> set (map f xs) \<Longrightarrow> length (filter (\<lambda>x. f x = k) xs) = 1"
proof (induction xs)
  case Nil
  then show ?case by simp
next
  case (Cons x xs)
  show ?case
  proof (cases "f x = k")
    case True
    from Cons.prems have "f x \<notin> f ` set xs" by simp
    with True have "\<forall>y \<in> set xs. f y \<noteq> k" by (metis imageI)
    then have "filter (\<lambda>x. f x = k) xs = []" by (simp add: filter_empty_conv)
    with True show ?thesis by simp
  next
    case False
    with Cons show ?thesis by auto
  qed
qed

lemma current_user_in: "current_user s = Some u \<Longrightarrow> u \<in> set (users s)"
  by (auto simp: current_user_def load_user_def find_Some_iff split: option.splits)

lemma in_set_category:
  "x \<in> set (set_category ts i c) \<Longrightarrow> \<exists>t \<in> set ts. x = t \<or> x = t\<lparr>category := c\<rparr>"
  by (auto simp: set_category_def)

lemma map_id_set_category [simp]: "map task_id (set_category ts i c) = map task_id ts"
  by (induction ts) (auto simp: set_category_def)

lemma map_name_set_category [simp]: "map task_name (set_category ts i c) = map task_name ts"
  by (induction ts) (auto simp: set_category_def)

section \<open>The store stays well formed\<close>

lemma db_ok_session [simp]: "db_ok (s\<lparr>session_user_id := x\<rparr>) = db_ok s"
  by (simp add: db_ok_def)

lemma db_ok_initial: "db_ok initial_state"
  by (simp add: db_ok_def initial_state_def)

lemma db_ok_examples: "db_ok example_state \<and> db_ok (example_state\<lparr>tasks := [milk, eggs]\<rparr>)"
  by (simp add: db_ok_def ex_defs)

lemma db_ok_add_task: "db_ok s \<Longrightarrow> db_ok (state_after (add_task rq s))"
proof -
  assume ok: "db_ok s"
  have fresh: "\<forall>x \<in> set (map task_id (tasks s)). x < next_id (map task_id (tasks s))"
    using next_id_greater by blast
  show ?thesis
  proof (cases "req_method rq = POST")
    case False
    with ok show ?thesis by (simp add: add_task_def redirect_def)
  next
    case True
    show ?thesis
    proof (cases "form rq ''task''")
      case None
      with ok True show ?thesis by (simp add: add_task_def fault_def)
    next
      case (Some nm)
      show ?thesis
      proof (cases "current_user s")
        case None
        with ok True Some show ?thesis by (simp add: add_task_def fault_def)
      next
        case u: (Some u)
        then have "u \<in> set (users s)" by (rule current_user_in)
        with ok True Some u fresh show ?thesis
          by (auto simp: add_task_def insert_task_def fault_def redirect_def db_ok_def
              sorted_append dest: less_imp_le)
      qed
    qed
  qed
qed

lemma db_ok_update_task: "db_ok s \<Longrightarrow> db_ok (state_after (update_task i s))"
  by (fastforce simp: update_task_def fault_def redirect_def db_ok_def
      split: option.splits dest!: in_set_category)

lemma db_ok_delete_task: "db_ok s \<Longrightarrow> db_ok (state_after (delete_task i s))"
  by (auto simp: delete_task_def fault_def redirect_def db_ok_def delete_row_def
      distinct_map_filter sorted_filter split: option.splits)

lemma db_ok_register: "db_ok s \<Longrightarrow> db_ok (state_after (register gen salt rq s))"
proof -
  assume ok: "db_ok s"
  have fresh: "\<forall>x \<in> set (map user_id (users s)). x < next_id (map user_id (users s))"
    using next_id_greater by blast
  then have "next_id (map user_id (users s)) \<notin> set (map user_id (users s))" by blast
  with ok show ?thesis
    by (auto simp: register_def insert_user_def fault_def redirect_def render_template_def
        flash_then_def db_ok_def Let_def split: option.splits)
qed

lemma db_ok_login: "db_ok s \<Longrightarrow> db_ok (state_after (login chk rq s))"
  by (auto simp: login_def fault_def redirect_def render_template_def flash_then_def
      split: option.splits)

lemma db_ok_handle: "db_ok s \<Longrightarrow> db_ok (state_after (handle gen chk ob s c))"
  by (cases c)
    (simp_all add: db_ok_add_task db_ok_update_task db_ok_delete_task db_ok_register
      db_ok_login home_def logout_def redirect_def)

lemma db_ok_run: "db_ok s \<Longrightarrow> db_ok (run gen chk ob s cs)"
  by (induction cs arbitrary: s) (simp_all add: db_ok_handle)

lemma reachable_emails_distinct: "distinct (map email (users (run gen chk ob initial_state cs)))"
  using db_ok_run [OF db_ok_initial, of gen chk ob cs] by (simp add: db_ok_def)

section \<open>Advancing a task\<close>

lemma advance_found:
  assumes "task_get (tasks s) i = Some t"
  shows "task_get (tasks (advance i s)) i =
           Some (t\<lparr>category := (if category t = ''To Do'' then ''DOING'' else ''DONE'')\<rparr>)"
  using assms task_get_id [OF assms]
  by (simp add: advance_def update_task_def redirect_def task_get_set_category)

lemma advance_stays_done:
  assumes "task_get (tasks s) i = Some t" "category t \<noteq> ''To Do''"
  shows "category_at ((advance i ^^ Suc n) s) i = Some ''DONE''"
proof -
  have "\<exists>t'. task_get (tasks ((advance i ^^ Suc n) s)) i = Some t' \<and> category t' = ''DONE''"
  proof (induction n)
    case 0
    show ?case using advance_found [OF assms(1)] assms(2) by simp
  next
    case (Suc n)
    then obtain t' where t': "task_get (tasks ((advance i ^^ Suc n) s)) i = Some t'"
      "category t' = ''DONE''" by blast
    show ?case using advance_found [OF t'(1)] t'(2) by simp
  qed
  then show ?thesis by (auto simp: category_at_def)
qed

text \<open>
  C1. For a stored task, the update route sets the category to \<^verbatim>\<open>"DOING"\<close> when it
  was \<^verbatim>\<open>"To Do"\<close> and to \<^verbatim>\<open>"DONE"\<close> in every other case. So from \<^verbatim>\<open>"To Do"\<close>
  the first advance gives \<^verbatim>\<open>"DOING"\<close>, and from any category the second and every
  later advance give \<^verbatim>\<open>"DONE"\<close>: the category never returns to \<^verbatim>\<open>"To Do"\<close>, and
  advancing a \<^verbatim>\<open>"DONE"\<close> task leaves it \<^verbatim>\<open>"DONE"\<close>.
\<close>

theorem update_task_advances:
  assumes "task_get (tasks s) i = Some t"
  shows "resp (update_task i s) = Redirect ''home'' \<and>
         category_at (advance i s) i =
           Some (if category t = ''To Do'' then ''DOING'' else ''DONE'') \<and>
         (\<forall>n. category_at ((advance i ^^ Suc (Suc n)) s) i = Some ''DONE'')"
proof -
  let ?t1 = "t\<lparr>category := (if category t = ''To Do'' then ''DOING'' else ''DONE'')\<rparr>"
  have r: "resp (update_task i s) = Redirect ''home''"
    using assms by (simp add: update_task_def redirect_def)
  have first: "task_get (tasks (advance i s)) i = Some ?t1"
    using assms by (rule advance_found)
  have one: "category_at (advance i s) i =
           Some (if category t = ''To Do'' then ''DOING'' else ''DONE'')"
    using first by (simp add: category_at_def)
  have later: "category_at ((advance i ^^ Suc (Suc n)) s) i = Some ''DONE''" for n
  proof -
    have "category ?t1 \<noteq> ''To Do''" by simp
    from advance_stays_done [OF first this, of n]
    show ?thesis by (simp add: funpow_swap1)
  qed
  show ?thesis using r one later by simp
qed

theorem update_task_advances_witness:
  "task_get (tasks example_state) 1 = Some milk \<and>
   category_at (advance 1 example_state) 1 = Some ''DOING'' \<and>
   category_at ((advance 1 ^^ Suc (Suc 0)) example_state) 1 = Some ''DONE'' \<and>
   category_at ((advance 1 ^^ Suc (Suc (Suc 0))) example_state) 1 = Some ''DONE''"
proof -
  have h: "task_get (tasks example_state) 1 = Some milk"
    by (simp add: ex_defs task_get_def)
  have c: "category milk = ''To Do''" by (simp add: milk_def)
  note a = update_task_advances [OF h]
  from a have a1: "category_at (advance 1 example_state) 1 = Some ''DOING''"
    using c by simp
  from a have a2: "category_at ((advance 1 ^^ Suc (Suc 0)) example_state) 1 = Some ''DONE''"
    by blast
  from a have a3: "category_at ((advance 1 ^^ Suc (Suc (Suc 0))) example_state) 1 = Some ''DONE''"
    by blast
  from h a1 a2 a3 show ?thesis by blast
qed

text \<open>
  C8. When no task has the identifier, \<^verbatim>\<open>first()\<close> returns \<^verbatim>\<open>None\<close> and reading
  its category raises: the request fails (the specification's not-found failure, here
  the uncaught attribute error) and the state, so every stored category, is unchanged.
\<close>

theorem update_task_missing:
  assumes "task_get (tasks s) i = None"
  shows "resp (update_task i s) = Fault AttributeError \<and>
         state_after (update_task i s) = s"
  using assms by (simp add: update_task_def fault_def)

theorem update_task_missing_witness:
  "task_get (tasks example_state) 7 = None \<and>
   resp (update_task 7 example_state) = Fault AttributeError \<and>
   state_after (update_task 7 example_state) = example_state"
proof -
  have h: "task_get (tasks example_state) 7 = None"
    by (simp add: ex_defs task_get_def)
  from update_task_missing [OF h] h show ?thesis by simp
qed

section \<open>Deleting a task\<close>

text \<open>
  C7. When no task has the identifier, \<^verbatim>\<open>get\<close> returns \<^verbatim>\<open>None\<close> and the
  session refuses to delete it: the request fails instead of succeeding silently (the
  specification's not-found failure, here the uncaught unmapped-instance error) and the
  stored tasks are unchanged.
\<close>

theorem delete_task_missing:
  assumes "task_get (tasks s) i = None"
  shows "resp (delete_task i s) = Fault UnmappedInstanceError \<and>
         state_after (delete_task i s) = s"
  using assms by (simp add: delete_task_def fault_def)

theorem delete_task_missing_witness:
  "task_get (tasks example_state) 7 = None \<and>
   resp (delete_task 7 example_state) = Fault UnmappedInstanceError \<and>
   state_after (delete_task 7 example_state) = example_state"
proof -
  have h: "task_get (tasks example_state) 7 = None"
    by (simp add: ex_defs task_get_def)
  from delete_task_missing [OF h] h show ?thesis by simp
qed

section \<open>Categories only move forward\<close>




text \<open>
  The statement follows a task while it lives. Once a task is deleted its key is free
  again, and the next insert may hand the same key to a new task, which starts at
  \<^verbatim>\<open>"To Do"\<close>.
\<close>

lemma deleted_key_is_reused:
  "category_at (run gen chk ob example_state
       [Update 1, Delete 1, Add (post [(''task'', ''Walk dog'')])]) 1 = Some ''To Do''"
  by (simp add: ex_defs category_at_def task_get_def update_task_def delete_task_def
      add_task_def insert_task_def set_category_def delete_row_def redirect_def
      current_user_def load_user_def next_id_def)

section \<open>The task board\<close>


text \<open>Two tasks of one owner and one of another, listed.\<close>

lemma home_example_listing:
  "resp (home order_by_owner_id
           (example_state\<lparr>tasks :=
              [milk\<lparr>owner_id := Some 2\<rparr>, eggs,
               \<lparr>owner_id = Some 1, task_id = 3, task_name = ''Walk dog'', category = ''DOING''\<rparr>]\<rparr>)) =
     Render ''index.html''
       (Some [eggs,
              \<lparr>owner_id = Some 1, task_id = 3, task_name = ''Walk dog'', category = ''DOING''\<rparr>,
              milk\<lparr>owner_id := Some 2\<rparr>])"
  by (simp add: home_def order_by_owner_id_def ex_defs)

text \<open>
  C10. Handling a request to the home listing leaves the store as it was: the same User
  rows, the same Task rows with every field, and the same session identity.
\<close>

theorem home_store_unchanged:
  "state_after (home ob s) = s \<and> users (state_after (home ob s)) = users s
     \<and> tasks (state_after (home ob s)) = tasks s"
  by (simp add: home_def)

section \<open>Adding a task\<close>

lemma add_task_name_taken:
  assumes "req_method rq = POST" "form rq ''task'' = Some nm" "current_user s = Some u"
    "nm \<in> set (map task_name (tasks s))"
  shows "add_task rq s = fault s IntegrityError"
  using assms by (simp add: add_task_def insert_task_def)

lemma add_task_name_present_after:
  assumes "req_method rq = POST" "form rq ''task'' = Some nm" "current_user s = Some u"
  shows "nm \<in> set (map task_name (tasks (state_after (add_task rq s))))"
  using assms by (simp add: add_task_def insert_task_def fault_def redirect_def)

text \<open>
  C4. Two posts to the add route with the same task name, each by a logged-in user:
  whoever is logged in for the second one, its commit violates the unique name column
  and the request fails (the specification's duplicate-name failure, here the uncaught
  integrity error), leaving the state as it was. The owners play no part.
\<close>

theorem add_task_duplicate_name:
  assumes "req_method r1 = POST" "form r1 ''task'' = Some nm" "current_user s = Some u1"
    "req_method r2 = POST" "form r2 ''task'' = Some nm"
    "s1 = (state_after (add_task r1 s))\<lparr>session_user_id := sid\<rparr>"
    "current_user s1 = Some u2"
  shows "resp (add_task r2 s1) = Fault IntegrityError \<and> state_after (add_task r2 s1) = s1"
proof -
  have "nm \<in> set (map task_name (tasks s1))"
    using add_task_name_present_after [OF assms(1-3)] assms(6) by simp
  from add_task_name_taken [OF assms(4,5,7) this]
  show ?thesis by (simp add: fault_def)
qed

theorem add_task_duplicate_name_witness:
  "current_user example_state = Some ann \<and>
   current_user ((state_after (add_task (post [(''task'', ''Walk dog'')]) example_state))
                   \<lparr>session_user_id := Some 2\<rparr>) = Some bob \<and>
   resp (add_task (post [(''task'', ''Walk dog'')])
          ((state_after (add_task (post [(''task'', ''Walk dog'')]) example_state))
             \<lparr>session_user_id := Some 2\<rparr>)) = Fault IntegrityError \<and>
   state_after (add_task (post [(''task'', ''Walk dog'')])
          ((state_after (add_task (post [(''task'', ''Walk dog'')]) example_state))
             \<lparr>session_user_id := Some 2\<rparr>)) =
     (state_after (add_task (post [(''task'', ''Walk dog'')]) example_state))
             \<lparr>session_user_id := Some 2\<rparr>"
proof -
  let ?q = "post [(''task'', ''Walk dog'')]"
  let ?s1 = "(state_after (add_task ?q example_state))\<lparr>session_user_id := Some 2\<rparr>"
  have q: "req_method ?q = POST" "form ?q ''task'' = Some ''Walk dog''"
    by (simp_all add: post_def)
  have u1: "current_user example_state = Some ann"
    by (simp add: ex_defs current_user_def load_user_def)
  have u2: "current_user ?s1 = Some bob"
    by (simp add: ex_defs current_user_def load_user_def add_task_def insert_task_def
        redirect_def)
  from add_task_duplicate_name [OF q u1 q refl u2] u1 u2 show ?thesis by simp
qed

section \<open>Registering and logging in\<close>

text \<open>
  C2. A registration for an email that no stored user has redirects to the home page,
  and a login with the same email and password afterwards (whatever happened to the
  session in between) redirects to the home page with the current user being a user
  with that email. The only thing asked of Werkzeug is that the hash it generated for
  the password verifies against that password.
\<close>

theorem register_then_login:
  assumes "req_method rq = POST" "form rq ''register-email'' = Some e"
    "form rq ''register-password'' = Some pw" "form rq ''register-name'' = Some n"
    "e \<notin> set (map email (users s))"
    "chk (gen salt pw) pw"
    "req_method lq = POST" "form lq ''login-email'' = Some e"
    "form lq ''login-password'' = Some pw"
  shows "resp (register gen salt rq s) = Redirect ''home'' \<and>
         (\<forall>sid. \<exists>u. resp (login chk lq (state_after (register gen salt rq s)\<lparr>session_user_id := sid\<rparr>))
                       = Redirect ''home'' \<and>
                  current_user (state_after
                     (login chk lq (state_after (register gen salt rq s)\<lparr>session_user_id := sid\<rparr>)))
                       = Some u \<and>
                  email u = e)"
proof -
  define nu where "nu = \<lparr>user_id = next_id (map user_id (users s)), email = e,
                         password = gen salt pw, user_name = n\<rparr>"
  have none: "user_by_email (users s) e = None"
    using assms(5) by (simp add: user_by_email_None)
  have reg: "register gen salt rq s =
               redirect (s\<lparr>users := users s @ [nu], session_user_id := Some (user_id nu)\<rparr>) ''home''"
    using assms(1-5) none by (simp add: register_def insert_user_def nu_def Let_def)
  have by_email: "user_by_email (users s @ [nu]) e = Some nu"
    unfolding user_by_email_def using assms(5)
    by (intro find_snoc_fresh) (auto simp: nu_def)
  have by_id: "load_user (users s @ [nu]) (user_id nu) = Some nu"
    unfolding load_user_def
  proof (intro find_snoc_fresh ballI)
    fix x assume "x \<in> set (users s)"
    then have "user_id x < next_id (map user_id (users s))"
      by (intro next_id_greater) simp
    then show "user_id x \<noteq> user_id nu" by (simp add: nu_def)
  qed simp
  have log: "login chk lq (state_after (register gen salt rq s)\<lparr>session_user_id := sid\<rparr>) =
               redirect (s\<lparr>users := users s @ [nu], session_user_id := Some (user_id nu)\<rparr>) ''home''"
    for sid
    using assms(6-9) by_email
    by (simp add: reg redirect_def login_def nu_def)
  have "email nu = e" by (simp add: nu_def)
  then show ?thesis using by_id by (simp add: log) (simp add: reg redirect_def current_user_def)
qed

theorem register_then_login_witness:
  "req_method (post [(''register-email'', ''cy@example.org''), (''register-password'', ''pw-cy''),
       (''register-name'', ''Cy'')]) = POST \<and>
   ''cy@example.org'' \<notin> set (map email (users example_state)) \<and>
   drop 8 (''saltsalt'' @ ''pw-cy'') = ''pw-cy'' \<and>
   resp (register (\<lambda>salt pw. salt @ pw) ''saltsalt''
          (post [(''register-email'', ''cy@example.org''), (''register-password'', ''pw-cy''),
                 (''register-name'', ''Cy'')]) example_state) = Redirect ''home'' \<and>
   (\<forall>sid. \<exists>u. resp (login (\<lambda>h pw. drop 8 h = pw)
                    (post [(''login-email'', ''cy@example.org''), (''login-password'', ''pw-cy'')])
                    (state_after (register (\<lambda>salt pw. salt @ pw) ''saltsalt''
                       (post [(''register-email'', ''cy@example.org''),
                              (''register-password'', ''pw-cy''), (''register-name'', ''Cy'')])
                       example_state)\<lparr>session_user_id := sid\<rparr>)) = Redirect ''home'' \<and>
               current_user (state_after (login (\<lambda>h pw. drop 8 h = pw)
                    (post [(''login-email'', ''cy@example.org''), (''login-password'', ''pw-cy'')])
                    (state_after (register (\<lambda>salt pw. salt @ pw) ''saltsalt''
                       (post [(''register-email'', ''cy@example.org''),
                              (''register-password'', ''pw-cy''), (''register-name'', ''Cy'')])
                       example_state)\<lparr>session_user_id := sid\<rparr>))) = Some u \<and>
               email u = ''cy@example.org'')"
proof -
  let ?rq = "post [(''register-email'', ''cy@example.org''), (''register-password'', ''pw-cy''),
       (''register-name'', ''Cy'')]"
  let ?lq = "post [(''login-email'', ''cy@example.org''), (''login-password'', ''pw-cy'')]"
  have 1: "req_method ?rq = POST" by (simp add: post_def)
  have 2: "form ?rq ''register-email'' = Some ''cy@example.org''" by (simp add: post_def)
  have 3: "form ?rq ''register-password'' = Some ''pw-cy''" by (simp add: post_def)
  have 4: "form ?rq ''register-name'' = Some ''Cy''" by (simp add: post_def)
  have 5: "''cy@example.org'' \<notin> set (map email (users example_state))" by (simp add: ex_defs)
  have 6: "(\<lambda>h pw. drop 8 h = pw) ((\<lambda>salt pw. salt @ pw) ''saltsalt'' ''pw-cy'') ''pw-cy''" by simp
  have 7: "req_method ?lq = POST" by (simp add: post_def)
  have 8: "form ?lq ''login-email'' = Some ''cy@example.org''" by (simp add: post_def)
  have 9: "form ?lq ''login-password'' = Some ''pw-cy''" by (simp add: post_def)
  from register_then_login [of ?rq "''cy@example.org''" "''pw-cy''" "''Cy''" example_state
      "\<lambda>h pw. drop 8 h = pw" "\<lambda>salt pw. salt @ pw" "''saltsalt''" ?lq, OF 1 2 3 4 5 6 7 8 9]
    1 5
  show ?thesis by simp
qed

text \<open>
  C3. A login with the email of a stored user and a password that does not verify
  against that user's stored hash flashes the wrong-password notice, redirects to the
  login page and leaves the state, with the session identity, untouched. A login with
  an email that no user has flashes the unknown-email notice, redirects to the login
  page and leaves the state untouched. The two notices are different texts.
\<close>

theorem login_failures:
  assumes "req_method lq = POST" "form lq ''login-email'' = Some e"
    "form lq ''login-password'' = Some pw"
  shows "(\<forall>u. distinct (map email (users s)) \<and> u \<in> set (users s) \<and> email u = e \<and>
              \<not> chk (password u) pw \<longrightarrow>
            login chk lq s =
              \<lparr>state_after = s,
               flashed = [(''Password incorrect, please try again!'', ''error'')],
               resp = Redirect ''login''\<rparr>) \<and>
         (e \<notin> set (map email (users s)) \<longrightarrow>
            login chk lq s =
              \<lparr>state_after = s,
               flashed = [(''That email does not exist, please try again.'', ''error'')],
               resp = Redirect ''login''\<rparr>) \<and>
         ''Password incorrect, please try again!'' \<noteq> ''That email does not exist, please try again.''"
proof (intro conjI allI impI)
  fix u
  assume "distinct (map email (users s)) \<and> u \<in> set (users s) \<and> email u = e \<and>
              \<not> chk (password u) pw"
  then have "user_by_email (users s) e = Some u" "\<not> chk (password u) pw"
    using user_by_email_distinct by auto
  then show "login chk lq s =
              \<lparr>state_after = s,
               flashed = [(''Password incorrect, please try again!'', ''error'')],
               resp = Redirect ''login''\<rparr>"
    using assms by (simp add: login_def flash_then_def redirect_def)
next
  assume "e \<notin> set (map email (users s))"
  then have "user_by_email (users s) e = None" by (simp add: user_by_email_None)
  then show "login chk lq s =
              \<lparr>state_after = s,
               flashed = [(''That email does not exist, please try again.'', ''error'')],
               resp = Redirect ''login''\<rparr>"
    using assms by (simp add: login_def flash_then_def redirect_def)
next
  show "''Password incorrect, please try again!'' \<noteq> ''That email does not exist, please try again.''"
    by simp
qed

theorem login_failures_witness:
  "distinct (map email (users example_state)) \<and> ann \<in> set (users example_state) \<and>
   \<not> drop 8 (password ann) = ''guess'' \<and>
   login (\<lambda>h pw. drop 8 h = pw)
     (post [(''login-email'', ''ann@example.org''), (''login-password'', ''guess'')]) example_state =
     \<lparr>state_after = example_state,
      flashed = [(''Password incorrect, please try again!'', ''error'')],
      resp = Redirect ''login''\<rparr> \<and>
   ''zed@example.org'' \<notin> set (map email (users example_state)) \<and>
   login (\<lambda>h pw. drop 8 h = pw)
     (post [(''login-email'', ''zed@example.org''), (''login-password'', ''guess'')]) example_state =
     \<lparr>state_after = example_state,
      flashed = [(''That email does not exist, please try again.'', ''error'')],
      resp = Redirect ''login''\<rparr>"
proof -
  let ?q1 = "post [(''login-email'', ''ann@example.org''), (''login-password'', ''guess'')]"
  let ?q2 = "post [(''login-email'', ''zed@example.org''), (''login-password'', ''guess'')]"
  have a: "req_method ?q1 = POST" "form ?q1 ''login-email'' = Some ''ann@example.org''"
    "form ?q1 ''login-password'' = Some ''guess''" by (simp_all add: post_def)
  have b: "req_method ?q2 = POST" "form ?q2 ''login-email'' = Some ''zed@example.org''"
    "form ?q2 ''login-password'' = Some ''guess''" by (simp_all add: post_def)
  have d: "distinct (map email (users example_state))" "ann \<in> set (users example_state)"
    "email ann = ''ann@example.org''" "\<not> drop 8 (password ann) = ''guess''"
    "''zed@example.org'' \<notin> set (map email (users example_state))"
    by (simp_all add: ex_defs)
  have pre: "distinct (map email (users example_state)) \<and> ann \<in> set (users example_state) \<and>
      email ann = ''ann@example.org'' \<and> \<not> drop 8 (password ann) = ''guess''"
    using d(1-4) by (intro conjI)
  note r1 = login_failures [OF a, of example_state "\<lambda>h pw. drop 8 h = pw",
      THEN conjunct1, THEN spec, THEN mp, OF pre]
  note r2 = login_failures [OF b, of example_state "\<lambda>h pw. drop 8 h = pw",
      THEN conjunct2, THEN conjunct1, THEN mp, OF d(5)]
  show ?thesis using d(1,2,4,5) r1 r2 by (intro conjI)
qed

text \<open>
  C5. A registration for an email that a stored user already has flashes a notice and
  renders the registration form again; the state is unchanged, and the store still
  holds exactly one user with that email.
\<close>

theorem register_existing_email:
  assumes "req_method rq = POST" "form rq ''register-email'' = Some e"
    "distinct (map email (users s))" "e \<in> set (map email (users s))"
  shows "register gen salt rq s =
           \<lparr>state_after = s, flashed = [(already_signed_up, ''error'')],
            resp = Render ''register.html'' None\<rparr> \<and>
         length (filter (\<lambda>u. email u = e) (users (state_after (register gen salt rq s)))) = 1"
proof -
  obtain u where "user_by_email (users s) e = Some u"
    using assms(4) user_by_email_None [of "users s" e] by (cases "user_by_email (users s) e") auto
  then have "register gen salt rq s =
           \<lparr>state_after = s, flashed = [(already_signed_up, ''error'')],
            resp = Render ''register.html'' None\<rparr>"
    using assms(1,2) by (simp add: register_def flash_then_def render_template_def)
  then show ?thesis using count_distinct_key [OF assms(3,4)] by simp
qed

theorem register_existing_email_witness:
  "distinct (map email (users example_state)) \<and>
   ''bob@example.org'' \<in> set (map email (users example_state)) \<and>
   register (\<lambda>salt pw. salt @ pw) ''saltsalt''
     (post [(''register-email'', ''bob@example.org'')]) example_state =
     \<lparr>state_after = example_state, flashed = [(already_signed_up, ''error'')],
      resp = Render ''register.html'' None\<rparr> \<and>
   length (filter (\<lambda>u. email u = ''bob@example.org'')
     (users (state_after (register (\<lambda>salt pw. salt @ pw) ''saltsalt''
        (post [(''register-email'', ''bob@example.org'')]) example_state)))) = 1"
proof -
  let ?q = "post [(''register-email'', ''bob@example.org'')]"
  have q: "req_method ?q = POST" "form ?q ''register-email'' = Some ''bob@example.org''"
    by (simp_all add: post_def)
  have d: "distinct (map email (users example_state))"
    "''bob@example.org'' \<in> set (map email (users example_state))"
    by (simp_all add: ex_defs)
  from register_existing_email [OF q d, of "\<lambda>salt pw. salt @ pw" "''saltsalt''"] d
  show ?thesis by blast
qed

end
